theory Spec2Isabelle
  imports Complex_Main "HOL-Library.Word"
begin

section \<open>Python values, errors and byte strings\<close>

text \<open>
  The development embeds \<^verbatim>\<open>nats_actor/core/actor.py\<close>. Exceptions are values of the
  type \<open>error\<close>; a call that may raise returns \<open>error + 'a\<close>, with \<open>Inl\<close> for the
  exception. Calls to \<^verbatim>\<open>logging\<close> write to a log sink only and are left out; what
  building their argument can raise is kept (the log line of the run loop), and so is the
  value \<open>send_task\<close> logs.
\<close>

datatype error =
    TypeError
  | UnicodeDecodeError
  | QueueFull
  | KeyError string
  | ImportError
  | ConnectionError
  | SubscriptionError
  | TimeoutError
  | CancelledError
  | AttributeError
  | RuntimeError

type_synonym byte = "8 word"
type_synonym bytes = "byte list"

text \<open>A Python \<^verbatim>\<open>str\<close> read from the bus is a sequence of Unicode code points.\<close>

type_synonym pystr = "nat list"

definition str_of :: "string \<Rightarrow> pystr" where
  "str_of s = map of_char s"

text \<open>The values a task spec holds: \<^verbatim>\<open>None\<close> or a string.\<close>

datatype pyval = PyNone | PyStr string

definition WORKER_CONTROL_SIGNAL_START :: pystr where
  "WORKER_CONTROL_SIGNAL_START = str_of ''START''"

definition WORKER_CONTROL_SIGNAL_STOP :: pystr where
  "WORKER_CONTROL_SIGNAL_STOP = str_of ''STOP''"

subsection \<open>\<^verbatim>\<open>bytes.decode()\<close>\<close>

text \<open>
  \<^verbatim>\<open>msg.data.decode()\<close> is called with the defaults: UTF-8, \<^verbatim>\<open>errors='strict'\<close>. The
  decoder accepts exactly the well-formed byte sequences: no overlong forms, no
  surrogates, nothing above U+10FFFF; anything else raises \<^verbatim>\<open>UnicodeDecodeError\<close>.
\<close>

definition is_cont :: "byte \<Rightarrow> bool" where
  "is_cont c = (0x80 \<le> c \<and> c \<le> 0xBF)"

definition cont_bits :: "byte \<Rightarrow> nat" where
  "cont_bits c = unat c mod 64"

definition second_ok3 :: "byte \<Rightarrow> byte \<Rightarrow> bool" where
  "second_ok3 b c =
     (if b = 0xE0 then 0xA0 \<le> c \<and> c \<le> 0xBF
      else if b = 0xED then 0x80 \<le> c \<and> c \<le> 0x9F
      else is_cont c)"

definition second_ok4 :: "byte \<Rightarrow> byte \<Rightarrow> bool" where
  "second_ok4 b c =
     (if b = 0xF0 then 0x90 \<le> c \<and> c \<le> 0xBF
      else if b = 0xF4 then 0x80 \<le> c \<and> c \<le> 0x8F
      else is_cont c)"

definition emit :: "nat \<Rightarrow> error + pystr \<Rightarrow> error + pystr" where
  "emit cp r = (case r of Inl e \<Rightarrow> Inl e | Inr cps \<Rightarrow> Inr (cp # cps))"

fun decode :: "bytes \<Rightarrow> error + pystr" where
  "decode [] = Inr []"
| "decode (b # bs) =
     (if b < 0x80 then emit (unat b) (decode bs)
      else if b < 0xC2 then Inl UnicodeDecodeError
      else if b < 0xE0 then
        (case bs of
           c1 # r \<Rightarrow>
             if is_cont c1 then emit ((unat b mod 32) * 64 + cont_bits c1) (decode r)
             else Inl UnicodeDecodeError
         | _ \<Rightarrow> Inl UnicodeDecodeError)
      else if b < 0xF0 then
        (case bs of
           c1 # c2 # r \<Rightarrow>
             if second_ok3 b c1 \<and> is_cont c2
             then emit ((unat b mod 16) * 4096 + cont_bits c1 * 64 + cont_bits c2) (decode r)
             else Inl UnicodeDecodeError
         | _ \<Rightarrow> Inl UnicodeDecodeError)
      else if b < 0xF5 then
        (case bs of
           c1 # c2 # c3 # r \<Rightarrow>
             if second_ok4 b c1 \<and> is_cont c2 \<and> is_cont c3
             then emit ((unat b mod 8) * 262144 + cont_bits c1 * 4096
                        + cont_bits c2 * 64 + cont_bits c3) (decode r)
             else Inl UnicodeDecodeError
         | _ \<Rightarrow> Inl UnicodeDecodeError)
      else Inl UnicodeDecodeError)"

section \<open>The control channel: \<^verbatim>\<open>asyncio.Queue\<close>\<close>

text \<open>
  \<^verbatim>\<open>asyncio.Queue(maxsize=0)\<close>: a deque filled at the right and emptied from the left.
  \<^verbatim>\<open>full()\<close> is false whenever \<^verbatim>\<open>maxsize <= 0\<close>; \<^verbatim>\<open>put_nowait\<close> raises
  \<^verbatim>\<open>QueueFull\<close> on a full queue and returns \<^verbatim>\<open>None\<close> otherwise. \<^verbatim>\<open>get\<close> suspends the
  caller on an empty queue: \<open>queue_get\<close> returns \<open>None\<close> there.
\<close>

record aio_queue =
  maxsize :: int
  items :: "pystr list"

definition Queue :: "int \<Rightarrow> aio_queue" where
  "Queue m = \<lparr>maxsize = m, items = []\<rparr>"

definition full :: "aio_queue \<Rightarrow> bool" where
  "full q = (if maxsize q \<le> 0 then False else maxsize q \<le> int (length (items q)))"

definition put_nowait :: "aio_queue \<Rightarrow> pystr \<Rightarrow> error + aio_queue" where
  "put_nowait q item =
     (if full q then Inl QueueFull else Inr (q\<lparr>items := items q @ [item]\<rparr>))"

definition queue_get :: "aio_queue \<Rightarrow> (pystr \<times> aio_queue) option" where
  "queue_get q =
     (case items q of [] \<Rightarrow> None | x # xs \<Rightarrow> Some (x, q\<lparr>items := xs\<rparr>))"

section \<open>The broker connection\<close>

text \<open>
  \<^verbatim>\<open>nats_actor/core/driver.py\<close> (\<^verbatim>\<open>NatsDriver\<close>) and the bus client it wraps are not
  among the sources; section 4.1 of the specification describes them. The broker, as the
  worker sees it: whether it can be reached, and for each request whether a responder
  replies and after how long. \<open>default_timeout\<close> is the time a request waits when the
  caller names none.
\<close>

record broker =
  reachable :: bool
  responder :: "string \<Rightarrow> bytes \<Rightarrow> (nat \<times> bytes) option"
  default_timeout :: nat

text \<open>
  What a task reference resolves to: a function, which has a \<^verbatim>\<open>__name__\<close>, or another
  callable (a \<^verbatim>\<open>functools.partial\<close>, an instance with \<^verbatim>\<open>__call__\<close>), which has none.
  Reading \<^verbatim>\<open>__name__\<close> of the latter raises \<^verbatim>\<open>AttributeError\<close>.
\<close>

datatype task_fn = Function string | Nameless string

definition name_of :: "task_fn \<Rightarrow> error + string" where
  "name_of f = (case f of Function n \<Rightarrow> Inr n | Nameless r \<Rightarrow> Inl AttributeError)"

text \<open>
  A callback handed to \<^verbatim>\<open>subscribe\<close>: the actor's \<^verbatim>\<open>_handle_signal\<close>, or a task
  function wrapped by \<^verbatim>\<open>create_task\<close>.
\<close>

datatype callback = HandleSignal | TaskCallback task_fn

text \<open>
  The arguments of one \<^verbatim>\<open>subscribe\<close> call. \<open>sub_queue\<close> is \<open>None\<close> when the call passes
  no \<^verbatim>\<open>queue\<close> argument.
\<close>

record subscription =
  sub_subject :: pyval
  sub_queue :: "pyval option"
  sub_cb :: callback

text \<open>A live session and its subscriptions, in order of creation.\<close>

record connection =
  subs :: "subscription list"

text \<open>
  The driver holds at most one live session. \<open>subscribe_calls\<close>, \<open>close_calls\<close> and
  \<open>requests\<close> record the calls made, in order, as a mock connection would.
\<close>

record nats_driver =
  urls :: "string list"
  nats :: "connection option"
  subscribe_calls :: "subscription list"
  close_calls :: nat
  requests :: "(string \<times> bytes) list"

definition NatsDriver :: "string list \<Rightarrow> nats_driver" where
  "NatsDriver us =
     \<lparr>urls = us, nats = None, subscribe_calls = [], close_calls = 0, requests = []\<rparr>"

text \<open>An event loop, known by its identity and whether it has been closed.\<close>

record event_loop =
  loop_id :: nat
  closed :: bool

definition get_connection :: "broker \<Rightarrow> nats_driver \<Rightarrow> event_loop \<Rightarrow> error + nats_driver" where
  \<comment> \<open>Modelled from the spec: \<^verbatim>\<open>NatsDriver.get_connection\<close> is missing. It "opens a
      connection (or reuses the live one)"; \<^verbatim>\<open>connect\<close> "fails with ConnectionError if
      the broker is unreachable".\<close>
  "get_connection br d lp =
     (case nats d of
        Some c \<Rightarrow> Inr d
      | None \<Rightarrow> if reachable br then Inr (d\<lparr>nats := Some \<lparr>subs = []\<rparr>\<rparr>)
                else Inl ConnectionError)"

definition subscribe ::
  "nats_driver \<Rightarrow> pyval \<Rightarrow> pyval option \<Rightarrow> callback \<Rightarrow> error + (nat \<times> nats_driver)" where
  \<comment> \<open>Modelled from the spec: the connection's \<^verbatim>\<open>subscribe\<close> is missing. It registers the
      handler and returns a subscription id; it "fails with SubscriptionError if the
      connection is not live".\<close>
  "subscribe d subject queue cb =
     (case nats d of
        None \<Rightarrow> Inl SubscriptionError
      | Some c \<Rightarrow>
          (let s = \<lparr>sub_subject = subject, sub_queue = queue, sub_cb = cb\<rparr>
           in Inr (Suc (length (subs c)),
                   d\<lparr>nats := Some (c\<lparr>subs := subs c @ [s]\<rparr>),
                     subscribe_calls := subscribe_calls d @ [s]\<rparr>)))"

definition nats_request ::
  "broker \<Rightarrow> nats_driver \<Rightarrow> string \<Rightarrow> bytes \<Rightarrow> nat \<Rightarrow> (error + bytes) \<times> nats_driver" where
  \<comment> \<open>Modelled from the spec: the connection's \<^verbatim>\<open>request\<close> is missing. It "sends and waits
      for exactly one reply or fails with TimeoutError after timeout elapses"; on a
      connection that is not live the operation fails.\<close>
  "nats_request br d subject payload timeout =
     (case nats d of
        None \<Rightarrow> (Inl ConnectionError, d)
      | Some c \<Rightarrow>
          (case responder br subject payload of
             None \<Rightarrow> Inl TimeoutError
           | Some (delay, reply) \<Rightarrow> if delay < timeout then Inr reply else Inl TimeoutError,
           d\<lparr>requests := requests d @ [(subject, payload)]\<rparr>))"

definition driver_close :: "nats_driver \<Rightarrow> nats_driver" where
  \<comment> \<open>Modelled from the spec: \<^verbatim>\<open>NatsDriver.close\<close> is missing. It "unsubscribes all active
      subscriptions, ... then releases the network session. Idempotent -- calling close()
      on an already-closed connection is a no-op, not an error."\<close>
  "driver_close d = d\<lparr>nats := None, close_calls := Suc (close_calls d)\<rparr>"

definition create_task :: "task_fn \<Rightarrow> callback" where
  \<comment> \<open>Modelled from the spec: \<^verbatim>\<open>NatsDriver.create_task\<close> is missing. It "wraps a task
      function into the handler shape the bus invokes on message delivery".\<close>
  "create_task task_fn = TaskCallback task_fn"

section \<open>Configuration\<close>

text \<open>
  The configuration object is read, never written. A task spec is a dictionary; a key
  that is missing raises \<^verbatim>\<open>KeyError\<close>.
\<close>

type_synonym task_spec = "string \<rightharpoonup> pyval"

record settings =
  NATS_URL :: string
  WORKER_NAME :: string
  TASKS :: "task_spec list"
  UVLOOP_ENABLED :: bool
  LOG_LEVEL :: string
  LOG_FORMAT :: string

definition subscript :: "task_spec \<Rightarrow> string \<Rightarrow> error + pyval" where
  "subscript d k = (case d k of None \<Rightarrow> Inl (KeyError k) | Some v \<Rightarrow> Inr v)"

section \<open>The actor\<close>

record actor =
  conf :: settings
  driver :: nats_driver
  loop :: event_loop
  queue :: aio_queue

text \<open>
  What \<^verbatim>\<open>__init__\<close> changes outside the object: the event-loop policy and the table of
  signal handlers. The one handler the code installs is the bound method \<^verbatim>\<open>self.stop\<close>.
\<close>

datatype handler = BoundStop

record process =
  uvloop_installed :: bool
  signal_table :: "nat \<rightharpoonup> handler"

definition SIGTERM :: nat where
  "SIGTERM = 15"

definition init :: "settings \<Rightarrow> event_loop \<Rightarrow> process \<Rightarrow> actor \<times> process" where
  \<comment> \<open>\<^verbatim>\<open>Actor.__init__\<close>; \<open>lp\<close> is what \<^verbatim>\<open>asyncio.get_event_loop()\<close> returns.\<close>
  "init c lp p =
     (\<lparr>conf = c, driver = NatsDriver [NATS_URL c], loop = lp, queue = Queue 0\<rparr>,
      p\<lparr>uvloop_installed := (if UVLOOP_ENABLED c then True else uvloop_installed p),
        signal_table := (signal_table p)(SIGTERM \<mapsto> BoundStop)\<rparr>)"

definition stop :: "actor \<Rightarrow> (error + unit) \<times> actor" where
  "stop a =
     (case put_nowait (queue a) WORKER_CONTROL_SIGNAL_STOP of
        Inl e \<Rightarrow> (Inl e, a)
      | Inr q \<Rightarrow> (Inr (), a\<lparr>queue := q\<rparr>))"

text \<open>
  Python calls a signal handler with two arguments, the signal number and the current
  stack frame. \<^verbatim>\<open>stop\<close> is declared with no parameter besides \<^verbatim>\<open>self\<close>: a call of the
  bound method with any argument raises \<^verbatim>\<open>TypeError\<close> before its body runs.
\<close>

datatype pyarg = ArgInt nat | ArgFrame

definition call_stop :: "pyarg list \<Rightarrow> actor \<Rightarrow> (error + unit) \<times> actor" where
  "call_stop args a = (if args = [] then stop a else (Inl TypeError, a))"

definition deliver_signal :: "process \<Rightarrow> nat \<Rightarrow> actor \<Rightarrow> ((error + unit) \<times> actor) option" where
  \<comment> \<open>\<open>None\<close>: the core installed no handler for the signal.\<close>
  "deliver_signal p signum a =
     (case signal_table p signum of
        None \<Rightarrow> None
      | Some BoundStop \<Rightarrow> Some (call_stop [ArgInt signum, ArgFrame] a))"

text \<open>
  The closure \<^verbatim>\<open>create_signal_handler\<close> returns. Its last line awaits the value of
  \<^verbatim>\<open>put_nowait\<close>, which is \<^verbatim>\<open>None\<close>: once the value is in the queue, the \<^verbatim>\<open>await\<close> raises
  \<^verbatim>\<open>TypeError\<close>.
\<close>

record msg =
  subject :: string
  reply :: string
  data :: bytes

definition handle_signal :: "msg \<Rightarrow> actor \<Rightarrow> (error + unit) \<times> actor" where
  "handle_signal m a =
     (case decode (data m) of
        Inl e \<Rightarrow> (Inl e, a)
      | Inr worker_message \<Rightarrow>
          (case put_nowait (queue a) worker_message of
             Inl e \<Rightarrow> (Inl e, a)
           | Inr q \<Rightarrow> (Inl TypeError, a\<lparr>queue := q\<rparr>)))"

section \<open>The run loop\<close>

text \<open>
  \<^verbatim>\<open>nats_driver\<close> is a generator-based context manager with no \<^verbatim>\<open>try\<close> around its
  \<^verbatim>\<open>yield\<close>: entering it takes the connection, leaving the block normally closes the
  driver, and an exception raised in the block passes through without the close.
\<close>

definition nats_driver_enter :: "broker \<Rightarrow> actor \<Rightarrow> event_loop option \<Rightarrow> error + actor" where
  "nats_driver_enter br a lp =
     (let lp' = (case lp of None \<Rightarrow> loop a | Some l \<Rightarrow> l)
      in case get_connection br (driver a) lp' of
           Inl e \<Rightarrow> Inl e
         | Inr d \<Rightarrow> Inr (a\<lparr>driver := d\<rparr>))"

definition nats_driver_exit :: "actor \<Rightarrow> actor" where
  "nats_driver_exit a = a\<lparr>driver := driver_close (driver a)\<rparr>"

text \<open>
  The \<^verbatim>\<open>for\<close> loop over \<^verbatim>\<open>conf.TASKS\<close>. \<^verbatim>\<open>get_module\<close> (of the missing
  \<^verbatim>\<open>nats_actor/core/utils.py\<close>) is a parameter: it resolves the task reference to the
  task function or raises. After each \<^verbatim>\<open>subscribe\<close> the argument of \<^verbatim>\<open>logging.debug\<close>
  is built, whatever the log level: it reads \<^verbatim>\<open>task_fn.__name__\<close> (the two dictionary
  reads before it have succeeded once already). The first exception ends the loop; the
  subscriptions made so far stay.
\<close>

fun register_tasks ::
  "(pyval \<Rightarrow> error + task_fn) \<Rightarrow> task_spec list \<Rightarrow> nats_driver \<Rightarrow> error option \<times> nats_driver" where
  "register_tasks get_module [] d = (None, d)"
| "register_tasks get_module (task_spec # rest) d =
     (case subscript task_spec ''task'' of
        Inl e \<Rightarrow> (Some e, d)
      | Inr ref \<Rightarrow>
     (case get_module ref of
        Inl e \<Rightarrow> (Some e, d)
      | Inr task_fn \<Rightarrow>
     (let callback = create_task task_fn in
      case subscript task_spec ''subject'' of
        Inl e \<Rightarrow> (Some e, d)
      | Inr subj \<Rightarrow>
     (case subscript task_spec ''queue'' of
        Inl e \<Rightarrow> (Some e, d)
      | Inr qu \<Rightarrow>
     (case subscribe d subj (Some qu) callback of
        Inl e \<Rightarrow> (Some e, d)
      | Inr (subscription_id, d') \<Rightarrow>
     (case name_of task_fn of
        Inl e \<Rightarrow> (Some e, d')
      | Inr name \<Rightarrow> register_tasks get_module rest d'))))))"

text \<open>
  The \<^verbatim>\<open>while\<close> loop, run on the values the queue holds. It returns the queue as it
  leaves it and whether the loop has ended: \<open>False\<close> when the loop is suspended in
  \<^verbatim>\<open>get\<close> on an empty queue, waiting for the next value.
\<close>

function wait_for_stop :: "pystr \<Rightarrow> aio_queue \<Rightarrow> bool \<times> aio_queue" where
  "wait_for_stop signal q =
     (if signal \<noteq> WORKER_CONTROL_SIGNAL_STOP
      then (case queue_get q of
              None \<Rightarrow> (False, q)
            | Some (signal', q') \<Rightarrow> wait_for_stop signal' q')
      else (True, q))"
  by pat_completeness auto
termination
  by (relation "measure (\<lambda>(signal, q). length (items q))")
     (auto simp: queue_get_def split: list.splits)

declare wait_for_stop.simps [simp del]

datatype outcome = Returned | Raised error | Suspended

definition run_in_loop ::
  "(pyval \<Rightarrow> error + task_fn) \<Rightarrow> broker \<Rightarrow> actor \<Rightarrow> outcome \<times> actor" where
  "run_in_loop get_module br a =
     (case nats_driver_enter br a None of
        Inl e \<Rightarrow> (Raised e, a)
      | Inr a1 \<Rightarrow>
     (case subscribe (driver a1) (PyStr (WORKER_NAME (conf a1))) None HandleSignal of
        Inl e \<Rightarrow> (Raised e, a1)
      | Inr (sid, d2) \<Rightarrow>
     (case register_tasks get_module (TASKS (conf a1)) d2 of
        (Some e, d3) \<Rightarrow> (Raised e, a1\<lparr>driver := d3\<rparr>)
      | (None, d3) \<Rightarrow>
     (case wait_for_stop WORKER_CONTROL_SIGNAL_START (queue a1) of
        (False, q) \<Rightarrow> (Suspended, a1\<lparr>driver := d3, queue := q\<rparr>)
      | (True, q) \<Rightarrow> (Returned, nats_driver_exit (a1\<lparr>driver := d3, queue := q\<rparr>))))))"

text \<open>
  The run loop taken up again where it was suspended, in \<^verbatim>\<open>get\<close>, once the queue holds
  values again: the \<^verbatim>\<open>while\<close> loop goes on and the block is left as before. The loop
  variable then holds a value other than \<^verbatim>\<open>STOP\<close> (the loop would have ended otherwise),
  and the loop only compares it with \<^verbatim>\<open>STOP\<close>, so \<^verbatim>\<open>START\<close> stands for it.
\<close>

definition resume_run_in_loop :: "actor \<Rightarrow> outcome \<times> actor" where
  "resume_run_in_loop a =
     (case wait_for_stop WORKER_CONTROL_SIGNAL_START (queue a) of
        (False, q) \<Rightarrow> (Suspended, a\<lparr>queue := q\<rparr>)
      | (True, q) \<Rightarrow> (Returned, nats_driver_exit (a\<lparr>queue := q\<rparr>)))"

section \<open>Requests\<close>

text \<open>
  \<^verbatim>\<open>request(self, name, payload, loop=None)\<close>: the third parameter is the event loop. The
  call \<^verbatim>\<open>nats.request(name, payload)\<close> names no timeout, so the connection waits its
  default.
\<close>

definition request ::
  "broker \<Rightarrow> actor \<Rightarrow> string \<Rightarrow> bytes \<Rightarrow> event_loop option \<Rightarrow> (error + bytes) \<times> actor" where
  "request br a name payload lp =
     (case nats_driver_enter br a lp of
        Inl e \<Rightarrow> (Inl e, a)
      | Inr a1 \<Rightarrow>
          (case nats_request br (driver a1) name payload (default_timeout br) of
             (Inl e, d) \<Rightarrow> (Inl e, a1\<lparr>driver := d\<rparr>)
           | (Inr res, d) \<Rightarrow> (Inr res, nats_driver_exit (a1\<lparr>driver := d\<rparr>))))"

text \<open>
  \<^verbatim>\<open>send_task\<close>. \<open>fresh\<close> is the loop that \<^verbatim>\<open>simple_eventloop()\<close> (of the missing
  \<^verbatim>\<open>utils.py\<close>) yields; \<open>t0\<close> and \<open>t1\<close> are the two readings of \<^verbatim>\<open>time.perf_counter()\<close>.
  Besides the response and the actor, the result holds what was logged: the elapsed time,
  computed only when the request has returned.
\<close>

definition send_task ::
  "broker \<Rightarrow> actor \<Rightarrow> event_loop \<Rightarrow> real \<Rightarrow> real \<Rightarrow> string \<Rightarrow> bytes
     \<Rightarrow> (error + bytes) \<times> actor \<times> real list" where
  "send_task br a fresh t0 t1 name payload =
     (let now = t0 in
      case request br a name payload (Some fresh) of
        (Inl e, a') \<Rightarrow> (Inl e, a', [])
      | (Inr response, a') \<Rightarrow>
          (let elapsed = (t1 - now) * 1000 in (Inr response, a', [elapsed])))"

section \<open>\<^verbatim>\<open>Actor.run\<close>\<close>









section \<open>Configurations and sample values\<close>

text \<open>
  A task spec is valid when it has the three keys the run loop reads and its task
  reference resolves to a function, with a \<^verbatim>\<open>__name__\<close>; a configuration is valid when
  all its task specs are.
\<close>

definition valid_task_spec :: "(pyval \<Rightarrow> error + task_fn) \<Rightarrow> task_spec \<Rightarrow> bool" where
  "valid_task_spec get_module ts =
     (case ts ''task'' of
        None \<Rightarrow> False
      | Some ref \<Rightarrow>
          (case get_module ref of
             Inl e \<Rightarrow> False
           | Inr task_fn \<Rightarrow>
               (case name_of task_fn of Inl e \<Rightarrow> False | Inr name \<Rightarrow> True) \<and>
               ts ''subject'' \<noteq> None \<and> ts ''queue'' \<noteq> None))"

definition valid_conf :: "(pyval \<Rightarrow> error + task_fn) \<Rightarrow> settings \<Rightarrow> bool" where
  "valid_conf get_module c = list_all (valid_task_spec get_module) (TASKS c)"

text \<open>The subscription \<open>s\<close> is the one the task spec \<open>ts\<close> asks for.\<close>

definition bound_to :: "(pyval \<Rightarrow> error + task_fn) \<Rightarrow> task_spec \<Rightarrow> subscription \<Rightarrow> bool" where
  "bound_to get_module ts s =
     (ts ''subject'' = Some (sub_subject s) \<and>
      (case sub_queue s of None \<Rightarrow> False | Some qu \<Rightarrow> ts ''queue'' = Some qu) \<and>
      (case ts ''task'' of
         None \<Rightarrow> False
       | Some ref \<Rightarrow>
           (case sub_cb s of
              HandleSignal \<Rightarrow> False
            | TaskCallback task_fn \<Rightarrow> get_module ref = Inr task_fn)))"

text \<open>The subscription on the control subject.\<close>

definition control_subscription :: "settings \<Rightarrow> subscription" where
  "control_subscription c =
     \<lparr>sub_subject = PyStr (WORKER_NAME c), sub_queue = None, sub_cb = HandleSignal\<rparr>"

text \<open>Putting a sequence of values on the channel, one \<^verbatim>\<open>put_nowait\<close> after the other.\<close>

fun enqueue_all :: "aio_queue \<Rightarrow> pystr list \<Rightarrow> error + aio_queue" where
  "enqueue_all q [] = Inr q"
| "enqueue_all q (v # vs) =
     (case put_nowait q v of Inl e \<Rightarrow> Inl e | Inr q' \<Rightarrow> enqueue_all q' vs)"

text \<open>
  Sample values: the configuration of the end-to-end scenario (one task on
  \<^verbatim>\<open>foo.get\<close>, queue \<^verbatim>\<open>None\<close>) with a second task in a queue group, a resolver of task
  references, and a broker with a quick responder, a slow one and a silent subject.
\<close>

definition sample_conf :: settings where
  "sample_conf =
     \<lparr>NATS_URL = ''nats://localhost:4222'', WORKER_NAME = ''worker'',
      TASKS = [[''subject'' \<mapsto> PyStr ''foo.get'', ''queue'' \<mapsto> PyNone,
                ''task'' \<mapsto> PyStr ''tasks.foo''],
               [''subject'' \<mapsto> PyStr ''bar.put'', ''queue'' \<mapsto> PyStr ''workers'',
                ''task'' \<mapsto> PyStr ''tasks.bar'']],
      UVLOOP_ENABLED = False, LOG_LEVEL = ''DEBUG'', LOG_FORMAT = ''%(message)s''\<rparr>"

definition sample_get_module :: "pyval \<Rightarrow> error + task_fn" where
  "sample_get_module ref =
     (case ref of PyNone \<Rightarrow> Inl ImportError | PyStr n \<Rightarrow> Inr (Function n))"

text \<open>A resolver that gives callables without a \<^verbatim>\<open>__name__\<close>.\<close>

definition nameless_get_module :: "pyval \<Rightarrow> error + task_fn" where
  "nameless_get_module ref =
     (case ref of PyNone \<Rightarrow> Inl ImportError | PyStr n \<Rightarrow> Inr (Nameless n))"

definition sample_broker :: broker where
  "sample_broker =
     \<lparr>reachable = True,
      responder = (\<lambda>subj payload.
         if subj = ''foo.get'' then Some (3, payload)
         else if subj = ''slow.get'' then Some (7, payload)
         else None),
      default_timeout = 5\<rparr>"

definition main_loop :: event_loop where
  "main_loop = \<lparr>loop_id = 0, closed = False\<rparr>"

definition sample_actor :: actor where
  "sample_actor =
     fst (init sample_conf main_loop \<lparr>uvloop_installed = False, signal_table = Map.empty\<rparr>)"

text \<open>
  The result \<open>r\<close> of the run loop of the actor \<open>a\<close>: the loop has returned and the
  driver's connection is closed, by one more call of \<^verbatim>\<open>close\<close> than \<open>a\<close> had seen.
\<close>

definition released_once :: "actor \<Rightarrow> outcome \<times> actor \<Rightarrow> bool" where
  "released_once a r =
     (case r of
        (out, a') \<Rightarrow> out = Returned \<and> nats (driver a') = None \<and>
                     close_calls (driver a') = Suc (close_calls (driver a)))"

text \<open>The sample actor while its run loop waits on the empty control channel.\<close>

definition running_actor :: actor where
  "running_actor = snd (run_in_loop sample_get_module sample_broker sample_actor)"

section \<open>Facts about the control channel\<close>

lemma START_not_STOP: "WORKER_CONTROL_SIGNAL_START \<noteq> WORKER_CONTROL_SIGNAL_STOP"
  by (simp add: WORKER_CONTROL_SIGNAL_STOP_def WORKER_CONTROL_SIGNAL_START_def str_of_def)

lemma decode_STOP: "decode [0x53, 0x54, 0x4F, 0x50] = Inr WORKER_CONTROL_SIGNAL_STOP"
  by (simp add: WORKER_CONTROL_SIGNAL_STOP_def str_of_def emit_def)

lemma put_nowait_unbounded:
  "maxsize q \<le> 0 \<Longrightarrow> put_nowait q v = Inr (q\<lparr>items := items q @ [v]\<rparr>)"
  by (simp add: put_nowait_def full_def)

lemma enqueue_all_unbounded:
  "maxsize q \<le> 0 \<Longrightarrow> enqueue_all q vs = Inr (q\<lparr>items := items q @ vs\<rparr>)"
  by (induction vs arbitrary: q) (simp_all add: put_nowait_unbounded)

text \<open>
  The loop in closed form: started with a value other than \<^verbatim>\<open>STOP\<close>, it ends exactly
  when the queue holds a \<^verbatim>\<open>STOP\<close>, having taken the values up to and including the
  first one; otherwise it takes them all and waits.
\<close>

lemma wait_for_stop_items:
  "signal \<noteq> WORKER_CONTROL_SIGNAL_STOP \<Longrightarrow>
   wait_for_stop signal q =
     (if WORKER_CONTROL_SIGNAL_STOP \<in> set (items q)
      then (True, q\<lparr>items := tl (dropWhile (\<lambda>v. v \<noteq> WORKER_CONTROL_SIGNAL_STOP) (items q))\<rparr>)
      else (False, q\<lparr>items := []\<rparr>))"
proof (induction signal q rule: wait_for_stop.induct)
  case (1 signal q)
  show ?case
  proof (cases "items q")
    case Nil
    with "1.prems" show ?thesis
      by (simp add: wait_for_stop.simps [of signal q] queue_get_def)
  next
    case (Cons x xs)
    show ?thesis
    proof (cases "x = WORKER_CONTROL_SIGNAL_STOP")
      case True
      with Cons "1.prems" show ?thesis
        by (simp add: wait_for_stop.simps [of signal q]
              wait_for_stop.simps [of WORKER_CONTROL_SIGNAL_STOP] queue_get_def)
    next
      case False
      with Cons "1.prems" "1.IH"[of "(x, q\<lparr>items := xs\<rparr>)" x "q\<lparr>items := xs\<rparr>"]
      show ?thesis
        by (simp add: wait_for_stop.simps [of signal q] queue_get_def)
    qed
  qed
qed

section \<open>Facts about the run loop\<close>

lemma register_tasks_valid:
  "list_all (valid_task_spec gm) tss \<Longrightarrow> nats d = Some c \<Longrightarrow>
   \<exists>ss. register_tasks gm tss d =
          (None, d\<lparr>nats := Some (c\<lparr>subs := subs c @ ss\<rparr>),
                   subscribe_calls := subscribe_calls d @ ss\<rparr>) \<and>
        list_all2 (bound_to gm) tss ss"
proof (induction tss arbitrary: d c)
  case Nil
  then show ?case by simp
next
  case (Cons ts tss)
  from Cons.prems(1) have v: "valid_task_spec gm ts"
    and rest: "list_all (valid_task_spec gm) tss"
    by simp_all
  from v obtain ref fn name subj qu where
    ts: "ts ''task'' = Some ref" "gm ref = Inr fn" "name_of fn = Inr name"
        "ts ''subject'' = Some subj" "ts ''queue'' = Some qu"
    by (auto simp: valid_task_spec_def split: option.splits sum.splits)
  define s where "s = \<lparr>sub_subject = subj, sub_queue = Some qu, sub_cb = TaskCallback fn\<rparr>"
  define d' where "d' = d\<lparr>nats := Some (c\<lparr>subs := subs c @ [s]\<rparr>),
                          subscribe_calls := subscribe_calls d @ [s]\<rparr>"
  have sub: "subscribe d subj (Some qu) (create_task fn) = Inr (Suc (length (subs c)), d')"
    using Cons.prems(2) by (simp add: subscribe_def create_task_def s_def d'_def Let_def)
  have step: "register_tasks gm (ts # tss) d = register_tasks gm tss d'"
    using ts sub by (simp add: subscript_def)
  have live: "nats d' = Some (c\<lparr>subs := subs c @ [s]\<rparr>)"
    by (simp add: d'_def)
  from Cons.IH [OF rest live] obtain ss where
    ss: "register_tasks gm tss d' =
          (None, d'\<lparr>nats := Some ((c\<lparr>subs := subs c @ [s]\<rparr>)\<lparr>subs := subs (c\<lparr>subs := subs c @ [s]\<rparr>) @ ss\<rparr>),
                   subscribe_calls := subscribe_calls d' @ ss\<rparr>)"
        "list_all2 (bound_to gm) tss ss"
    by blast
  have bound: "bound_to gm ts s"
    using ts by (simp add: bound_to_def s_def)
  have "register_tasks gm (ts # tss) d =
          (None, d\<lparr>nats := Some (c\<lparr>subs := subs c @ (s # ss)\<rparr>),
                   subscribe_calls := subscribe_calls d @ (s # ss)\<rparr>)"
    using step ss(1) by (simp add: d'_def)
  moreover have "list_all2 (bound_to gm) (ts # tss) (s # ss)"
    using bound ss(2) by simp
  ultimately show ?case by blast
qed

lemma get_connection_live:
  assumes "reachable br \<or> nats d \<noteq> None"
  shows "\<exists>c. get_connection br d lp = Inr (d\<lparr>nats := Some c\<rparr>) \<and>
             (nats d = None \<and> c = \<lparr>subs = []\<rparr> \<or> nats d = Some c)"
proof (cases "nats d")
  case None
  with assms have "get_connection br d lp = Inr (d\<lparr>nats := Some \<lparr>subs = []\<rparr>\<rparr>)"
    by (simp add: get_connection_def)
  with None show ?thesis by blast
next
  case (Some c)
  then have "d\<lparr>nats := Some c\<rparr> = d" by (cases d) simp
  with Some have "get_connection br d lp = Inr (d\<lparr>nats := Some c\<rparr>)"
    by (simp add: get_connection_def)
  with Some show ?thesis by blast
qed

lemma run_in_loop_valid:
  assumes up: "reachable br \<or> nats (driver a) \<noteq> None" and valid: "valid_conf gm (conf a)"
  shows "\<exists>c ss.
     (nats (driver a) = None \<and> c = \<lparr>subs = []\<rparr> \<or> nats (driver a) = Some c) \<and>
     list_all2 (bound_to gm) (TASKS (conf a)) ss \<and>
     run_in_loop gm br a =
       (if WORKER_CONTROL_SIGNAL_STOP \<in> set (items (queue a))
        then (Returned,
              a\<lparr>driver := (driver a)\<lparr>nats := None,
                    subscribe_calls :=
                      subscribe_calls (driver a) @ control_subscription (conf a) # ss,
                    close_calls := Suc (close_calls (driver a))\<rparr>,
                queue := (queue a)\<lparr>items :=
                    tl (dropWhile (\<lambda>v. v \<noteq> WORKER_CONTROL_SIGNAL_STOP) (items (queue a)))\<rparr>\<rparr>)
        else (Suspended,
              a\<lparr>driver := (driver a)\<lparr>
                    nats := Some (c\<lparr>subs := subs c @ control_subscription (conf a) # ss\<rparr>),
                    subscribe_calls :=
                      subscribe_calls (driver a) @ control_subscription (conf a) # ss\<rparr>,
                queue := (queue a)\<lparr>items := []\<rparr>\<rparr>))"
proof -
  from up obtain c where
    conn: "get_connection br (driver a) (loop a) = Inr ((driver a)\<lparr>nats := Some c\<rparr>)"
    and c: "nats (driver a) = None \<and> c = \<lparr>subs = []\<rparr> \<or> nats (driver a) = Some c"
    using get_connection_live [of br "driver a" "loop a"] by blast
  define a1 where "a1 = a\<lparr>driver := (driver a)\<lparr>nats := Some c\<rparr>\<rparr>"
  have enter: "nats_driver_enter br a None = Inr a1"
    using conn by (simp add: nats_driver_enter_def a1_def)
  define s0 where "s0 = control_subscription (conf a)"
  define d2 where "d2 = (driver a1)\<lparr>nats := Some (c\<lparr>subs := subs c @ [s0]\<rparr>),
                            subscribe_calls := subscribe_calls (driver a) @ [s0]\<rparr>"
  have ctl: "subscribe (driver a1) (PyStr (WORKER_NAME (conf a1))) None HandleSignal =
               Inr (Suc (length (subs c)), d2)"
    by (simp add: subscribe_def a1_def d2_def s0_def control_subscription_def Let_def)
  have live: "nats d2 = Some (c\<lparr>subs := subs c @ [s0]\<rparr>)"
    by (simp add: d2_def)
  from valid have "list_all (valid_task_spec gm) (TASKS (conf a1))"
    by (simp add: valid_conf_def a1_def)
  from register_tasks_valid [OF this live] obtain ss where
    reg: "register_tasks gm (TASKS (conf a1)) d2 =
            (None, d2\<lparr>nats := Some ((c\<lparr>subs := subs c @ [s0]\<rparr>)\<lparr>subs := subs (c\<lparr>subs := subs c @ [s0]\<rparr>) @ ss\<rparr>),
                      subscribe_calls := subscribe_calls d2 @ ss\<rparr>)"
     and bound: "list_all2 (bound_to gm) (TASKS (conf a1)) ss"
    by blast
  have q: "queue a1 = queue a" by (simp add: a1_def)
  have "run_in_loop gm br a =
       (if WORKER_CONTROL_SIGNAL_STOP \<in> set (items (queue a))
        then (Returned,
              a\<lparr>driver := (driver a)\<lparr>nats := None,
                    subscribe_calls := subscribe_calls (driver a) @ s0 # ss,
                    close_calls := Suc (close_calls (driver a))\<rparr>,
                queue := (queue a)\<lparr>items :=
                    tl (dropWhile (\<lambda>v. v \<noteq> WORKER_CONTROL_SIGNAL_STOP) (items (queue a)))\<rparr>\<rparr>)
        else (Suspended,
              a\<lparr>driver := (driver a)\<lparr>
                    nats := Some (c\<lparr>subs := subs c @ s0 # ss\<rparr>),
                    subscribe_calls := subscribe_calls (driver a) @ s0 # ss\<rparr>,
                queue := (queue a)\<lparr>items := []\<rparr>\<rparr>))"
    by (simp add: run_in_loop_def enter ctl reg q wait_for_stop_items [OF START_not_STOP]
        nats_driver_exit_def driver_close_def)
       (simp add: a1_def d2_def)
  with c bound show ?thesis
    unfolding s0_def a1_def by (intro exI [of _ c] exI [of _ ss]) simp
qed


lemma run_in_loop_released:
  assumes "reachable br" and "valid_conf gm (conf a)"
    and "WORKER_CONTROL_SIGNAL_STOP \<in> set (items (queue a))"
    and "close_calls (driver a) = close_calls (driver a0)"
  shows "released_once a0 (run_in_loop gm br a)"
proof -
  from assms(1,2) run_in_loop_valid [of br a gm] obtain c ss where
    "run_in_loop gm br a =
       (if WORKER_CONTROL_SIGNAL_STOP \<in> set (items (queue a))
        then (Returned,
              a\<lparr>driver := (driver a)\<lparr>nats := None,
                    subscribe_calls :=
                      subscribe_calls (driver a) @ control_subscription (conf a) # ss,
                    close_calls := Suc (close_calls (driver a))\<rparr>,
                queue := (queue a)\<lparr>items :=
                    tl (dropWhile (\<lambda>v. v \<noteq> WORKER_CONTROL_SIGNAL_STOP) (items (queue a)))\<rparr>\<rparr>)
        else (Suspended,
              a\<lparr>driver := (driver a)\<lparr>
                    nats := Some (c\<lparr>subs := subs c @ control_subscription (conf a) # ss\<rparr>),
                    subscribe_calls :=
                      subscribe_calls (driver a) @ control_subscription (conf a) # ss\<rparr>,
                queue := (queue a)\<lparr>items := []\<rparr>\<rparr>))"
    by blast
  with assms(3,4) show ?thesis by (simp add: released_once_def)
qed

lemma resume_released:
  assumes "WORKER_CONTROL_SIGNAL_STOP \<in> set (items (queue a))"
    and "close_calls (driver a) = close_calls (driver a0)"
  shows "released_once a0 (resume_run_in_loop a)"
  using assms
  by (simp add: resume_run_in_loop_def wait_for_stop_items [OF START_not_STOP]
      released_once_def nats_driver_exit_def driver_close_def)

lemma run_in_loop_waits:
  assumes "reachable br" and "valid_conf gm (conf a)"
    and "WORKER_CONTROL_SIGNAL_STOP \<notin> set (items (queue a))"
  shows "fst (run_in_loop gm br a) = Suspended \<and>
         queue (snd (run_in_loop gm br a)) = (queue a)\<lparr>items := []\<rparr> \<and>
         nats (driver (snd (run_in_loop gm br a))) \<noteq> None \<and>
         close_calls (driver (snd (run_in_loop gm br a))) = close_calls (driver a)"
proof -
  from assms(1,2) run_in_loop_valid [of br a gm] obtain c ss where
    "run_in_loop gm br a =
       (if WORKER_CONTROL_SIGNAL_STOP \<in> set (items (queue a))
        then (Returned,
              a\<lparr>driver := (driver a)\<lparr>nats := None,
                    subscribe_calls :=
                      subscribe_calls (driver a) @ control_subscription (conf a) # ss,
                    close_calls := Suc (close_calls (driver a))\<rparr>,
                queue := (queue a)\<lparr>items :=
                    tl (dropWhile (\<lambda>v. v \<noteq> WORKER_CONTROL_SIGNAL_STOP) (items (queue a)))\<rparr>\<rparr>)
        else (Suspended,
              a\<lparr>driver := (driver a)\<lparr>
                    nats := Some (c\<lparr>subs := subs c @ control_subscription (conf a) # ss\<rparr>),
                    subscribe_calls :=
                      subscribe_calls (driver a) @ control_subscription (conf a) # ss\<rparr>,
                queue := (queue a)\<lparr>items := []\<rparr>\<rparr>))"
    by blast
  with assms(3) show ?thesis by simp
qed



lemma request_result:
  assumes "reachable br \<or> nats (driver a) \<noteq> None"
  shows "\<exists>c. (nats (driver a) = None \<and> c = \<lparr>subs = []\<rparr> \<or> nats (driver a) = Some c) \<and>
     request br a name payload lp =
       (case responder br name payload of
          None \<Rightarrow> (Inl TimeoutError,
                    a\<lparr>driver := (driver a)\<lparr>nats := Some c,
                          requests := requests (driver a) @ [(name, payload)]\<rparr>\<rparr>)
        | Some (delay, res) \<Rightarrow>
            if delay < default_timeout br
            then (Inr res,
                  a\<lparr>driver := (driver a)\<lparr>nats := None,
                        close_calls := Suc (close_calls (driver a)),
                        requests := requests (driver a) @ [(name, payload)]\<rparr>\<rparr>)
            else (Inl TimeoutError,
                  a\<lparr>driver := (driver a)\<lparr>nats := Some c,
                        requests := requests (driver a) @ [(name, payload)]\<rparr>\<rparr>))"
proof -
  define lp' where "lp' = (case lp of None \<Rightarrow> loop a | Some l \<Rightarrow> l)"
  from assms obtain c where
    conn: "get_connection br (driver a) lp' = Inr ((driver a)\<lparr>nats := Some c\<rparr>)"
    and c: "nats (driver a) = None \<and> c = \<lparr>subs = []\<rparr> \<or> nats (driver a) = Some c"
    using get_connection_live [of br "driver a" lp'] by blast
  have enter: "nats_driver_enter br a lp = Inr (a\<lparr>driver := (driver a)\<lparr>nats := Some c\<rparr>\<rparr>)"
    using conn by (simp add: nats_driver_enter_def lp'_def)
  have "request br a name payload lp =
       (case responder br name payload of
          None \<Rightarrow> (Inl TimeoutError,
                    a\<lparr>driver := (driver a)\<lparr>nats := Some c,
                          requests := requests (driver a) @ [(name, payload)]\<rparr>\<rparr>)
        | Some (delay, res) \<Rightarrow>
            if delay < default_timeout br
            then (Inr res,
                  a\<lparr>driver := (driver a)\<lparr>nats := None,
                        close_calls := Suc (close_calls (driver a)),
                        requests := requests (driver a) @ [(name, payload)]\<rparr>\<rparr>)
            else (Inl TimeoutError,
                  a\<lparr>driver := (driver a)\<lparr>nats := Some c,
                        requests := requests (driver a) @ [(name, payload)]\<rparr>\<rparr>))"
    by (simp add: request_def enter nats_request_def nats_driver_exit_def driver_close_def
        split: option.splits prod.splits)
  with c show ?thesis by blast
qed




lemma stop_unbounded:
  "maxsize (queue a) \<le> 0 \<Longrightarrow>
   stop a = (Inr (), a\<lparr>queue := (queue a)\<lparr>items := items (queue a) @ [WORKER_CONTROL_SIGNAL_STOP]\<rparr>\<rparr>)"
  by (simp add: stop_def put_nowait_unbounded)

lemma handle_signal_unbounded:
  "maxsize (queue a) \<le> 0 \<Longrightarrow> decode (data m) = Inr v \<Longrightarrow>
   handle_signal m a = (Inl TypeError, a\<lparr>queue := (queue a)\<lparr>items := items (queue a) @ [v]\<rparr>\<rparr>)"
  by (simp add: handle_signal_def put_nowait_unbounded)

section \<open>Facts about the sample values\<close>

lemma sample_valid: "valid_conf sample_get_module sample_conf"
  by (simp add: valid_conf_def sample_conf_def valid_task_spec_def sample_get_module_def
      name_of_def)

lemma sample_actor_conf: "conf sample_actor = sample_conf"
  by (simp add: sample_actor_def init_def)

lemma sample_actor_queue: "queue sample_actor = \<lparr>maxsize = 0, items = []\<rparr>"
  by (simp add: sample_actor_def init_def Queue_def)

lemma sample_actor_driver: "driver sample_actor = NatsDriver [''nats://localhost:4222'']"
  by (simp add: sample_actor_def init_def sample_conf_def)

lemma sample_broker_up: "reachable sample_broker"
  by (simp add: sample_broker_def)

lemma running_actor_eval:
  "run_in_loop sample_get_module sample_broker sample_actor =
    (Suspended,
     sample_actor\<lparr>driver := (driver sample_actor)\<lparr>
       nats := Some \<lparr>subs =
         [\<lparr>sub_subject = PyStr ''worker'', sub_queue = None, sub_cb = HandleSignal\<rparr>,
          \<lparr>sub_subject = PyStr ''foo.get'', sub_queue = Some PyNone,
             sub_cb = TaskCallback (Function ''tasks.foo'')\<rparr>,
          \<lparr>sub_subject = PyStr ''bar.put'', sub_queue = Some (PyStr ''workers''),
             sub_cb = TaskCallback (Function ''tasks.bar'')\<rparr>]\<rparr>,
       subscribe_calls :=
         [\<lparr>sub_subject = PyStr ''worker'', sub_queue = None, sub_cb = HandleSignal\<rparr>,
          \<lparr>sub_subject = PyStr ''foo.get'', sub_queue = Some PyNone,
             sub_cb = TaskCallback (Function ''tasks.foo'')\<rparr>,
          \<lparr>sub_subject = PyStr ''bar.put'', sub_queue = Some (PyStr ''workers''),
             sub_cb = TaskCallback (Function ''tasks.bar'')\<rparr>]\<rparr>\<rparr>)"
  by (simp add: run_in_loop_def nats_driver_enter_def get_connection_def sample_actor_driver
      sample_actor_conf sample_actor_queue NatsDriver_def sample_broker_def subscribe_def
      sample_conf_def subscript_def sample_get_module_def create_task_def name_of_def Let_def
      wait_for_stop.simps [of WORKER_CONTROL_SIGNAL_START] START_not_STOP queue_get_def)

text \<open>
  With a task that resolves to a callable without \<^verbatim>\<open>__name__\<close>, the run loop raises
  \<^verbatim>\<open>AttributeError\<close> when it builds the log line of the first task: the control
  subscription and that of the first task have been made, the second task has none.
\<close>

lemma run_in_loop_nameless_task:
  "fst (run_in_loop nameless_get_module sample_broker sample_actor) = Raised AttributeError \<and>
   subscribe_calls (driver (snd (run_in_loop nameless_get_module sample_broker sample_actor))) =
     [\<lparr>sub_subject = PyStr ''worker'', sub_queue = None, sub_cb = HandleSignal\<rparr>,
      \<lparr>sub_subject = PyStr ''foo.get'', sub_queue = Some PyNone,
         sub_cb = TaskCallback (Nameless ''tasks.foo'')\<rparr>]"
  by (simp add: run_in_loop_def nats_driver_enter_def get_connection_def sample_actor_driver
      sample_actor_conf NatsDriver_def sample_broker_def subscribe_def
      sample_conf_def subscript_def nameless_get_module_def create_task_def name_of_def Let_def)

section \<open>The claims\<close>

text \<open>
  C1. When the broker can be reached and the configuration is valid (every task spec has
  its three keys and a task that resolves to a function), with \<open>N\<close> task specs, the run
  loop makes exactly \<open>N + 1\<close> \<^verbatim>\<open>subscribe\<close> calls: first the one on the control subject
  \<^verbatim>\<open>WORKER_NAME\<close>, then one per task spec, in the order of the configuration, each with
  the subject, queue and task of its spec. This holds whether the loop then waits or
  returns.
\<close>

theorem run_in_loop_subscriptions:
  assumes "reachable br" and "valid_conf get_module (conf a)"
  shows "\<exists>ss. subscribe_calls (driver (snd (run_in_loop get_module br a))) =
                subscribe_calls (driver a) @ control_subscription (conf a) # ss \<and>
              list_all2 (bound_to get_module) (TASKS (conf a)) ss \<and>
              length (control_subscription (conf a) # ss) = length (TASKS (conf a)) + 1"
proof -
  from assms run_in_loop_valid [of br a get_module] obtain c ss where
    bound: "list_all2 (bound_to get_module) (TASKS (conf a)) ss" and
    calls: "subscribe_calls (driver (snd (run_in_loop get_module br a))) =
              subscribe_calls (driver a) @ control_subscription (conf a) # ss"
    by (auto split: if_splits)
  from bound have "length ss = length (TASKS (conf a))"
    by (simp add: list_all2_lengthD)
  with bound calls show ?thesis by auto
qed

theorem run_in_loop_subscriptions_witness:
  "reachable sample_broker \<and> valid_conf sample_get_module (conf sample_actor) \<and>
   (\<exists>ss. subscribe_calls (driver (snd (run_in_loop sample_get_module sample_broker sample_actor))) =
          subscribe_calls (driver sample_actor) @ control_subscription (conf sample_actor) # ss \<and>
        list_all2 (bound_to sample_get_module) (TASKS (conf sample_actor)) ss \<and>
        length (control_subscription (conf sample_actor) # ss) = 3) \<and>
   subscribe_calls (driver (snd (run_in_loop sample_get_module sample_broker sample_actor))) =
     [\<lparr>sub_subject = PyStr ''worker'', sub_queue = None, sub_cb = HandleSignal\<rparr>,
      \<lparr>sub_subject = PyStr ''foo.get'', sub_queue = Some PyNone,
         sub_cb = TaskCallback (Function ''tasks.foo'')\<rparr>,
      \<lparr>sub_subject = PyStr ''bar.put'', sub_queue = Some (PyStr ''workers''),
         sub_cb = TaskCallback (Function ''tasks.bar'')\<rparr>]"
proof -
  have up: "reachable sample_broker" by (rule sample_broker_up)
  have valid: "valid_conf sample_get_module (conf sample_actor)"
    by (simp add: sample_actor_conf sample_valid)
  have "length (TASKS (conf sample_actor)) + 1 = 3"
    by (simp add: sample_actor_conf sample_conf_def)
  moreover have "subscribe_calls
      (driver (snd (run_in_loop sample_get_module sample_broker sample_actor))) =
     [\<lparr>sub_subject = PyStr ''worker'', sub_queue = None, sub_cb = HandleSignal\<rparr>,
      \<lparr>sub_subject = PyStr ''foo.get'', sub_queue = Some PyNone,
         sub_cb = TaskCallback (Function ''tasks.foo'')\<rparr>,
      \<lparr>sub_subject = PyStr ''bar.put'', sub_queue = Some (PyStr ''workers''),
         sub_cb = TaskCallback (Function ''tasks.bar'')\<rparr>]"
    by (simp add: running_actor_eval)
  ultimately show ?thesis
    using up valid run_in_loop_subscriptions [OF up valid] by simp
qed

text \<open>
  C2. Whatever sequence of values is put on the control channel, the queue holds them in
  the order of insertion, and the run loop takes them from the front in that order. The
  loop ends if and only if it reads \<^verbatim>\<open>STOP\<close>: it has then taken the values up to and
  including the first \<^verbatim>\<open>STOP\<close> and leaves the rest; with no \<^verbatim>\<open>STOP\<close> it takes every
  value and keeps waiting. A value other than \<^verbatim>\<open>STOP\<close> at the front, \<^verbatim>\<open>START\<close> included,
  changes nothing: the loop goes on as if the value had not been there.
\<close>

theorem wait_for_stop_fifo:
  "enqueue_all (Queue 0) vs = Inr \<lparr>maxsize = 0, items = vs\<rparr> \<and>
   wait_for_stop WORKER_CONTROL_SIGNAL_START \<lparr>maxsize = 0, items = vs\<rparr> =
     (if WORKER_CONTROL_SIGNAL_STOP \<in> set vs
      then (True, \<lparr>maxsize = 0,
                   items = tl (dropWhile (\<lambda>v. v \<noteq> WORKER_CONTROL_SIGNAL_STOP) vs)\<rparr>)
      else (False, \<lparr>maxsize = 0, items = []\<rparr>)) \<and>
   (fst (wait_for_stop WORKER_CONTROL_SIGNAL_START \<lparr>maxsize = 0, items = vs\<rparr>)
      \<longleftrightarrow> WORKER_CONTROL_SIGNAL_STOP \<in> set vs) \<and>
   (v \<noteq> WORKER_CONTROL_SIGNAL_STOP \<longrightarrow>
      wait_for_stop WORKER_CONTROL_SIGNAL_START \<lparr>maxsize = 0, items = v # vs\<rparr> =
      wait_for_stop WORKER_CONTROL_SIGNAL_START \<lparr>maxsize = 0, items = vs\<rparr>)"
proof -
  have enq: "enqueue_all (Queue 0) vs = Inr \<lparr>maxsize = 0, items = vs\<rparr>"
    by (simp add: enqueue_all_unbounded Queue_def)
  have closed_form: "wait_for_stop WORKER_CONTROL_SIGNAL_START \<lparr>maxsize = 0, items = xs\<rparr> =
     (if WORKER_CONTROL_SIGNAL_STOP \<in> set xs
      then (True, \<lparr>maxsize = 0,
                   items = tl (dropWhile (\<lambda>v. v \<noteq> WORKER_CONTROL_SIGNAL_STOP) xs)\<rparr>)
      else (False, \<lparr>maxsize = 0, items = []\<rparr>))" for xs
    using wait_for_stop_items [OF START_not_STOP, of "\<lparr>maxsize = 0, items = xs\<rparr>"] by simp
  have skip: "wait_for_stop WORKER_CONTROL_SIGNAL_START \<lparr>maxsize = 0, items = v # vs\<rparr> =
      wait_for_stop WORKER_CONTROL_SIGNAL_START \<lparr>maxsize = 0, items = vs\<rparr>"
    if "v \<noteq> WORKER_CONTROL_SIGNAL_STOP"
    unfolding closed_form using that by simp
  from enq closed_form [of vs] skip show ?thesis by simp
qed

theorem wait_for_stop_fifo_witness:
  "wait_for_stop WORKER_CONTROL_SIGNAL_START
     \<lparr>maxsize = 0, items = [str_of ''PING'', WORKER_CONTROL_SIGNAL_START,
                             WORKER_CONTROL_SIGNAL_STOP, str_of ''LATE'']\<rparr> =
   (True, \<lparr>maxsize = 0, items = [str_of ''LATE'']\<rparr>) \<and>
   wait_for_stop WORKER_CONTROL_SIGNAL_START
     \<lparr>maxsize = 0, items = [str_of ''PING'', WORKER_CONTROL_SIGNAL_STOP]\<rparr> =
   wait_for_stop WORKER_CONTROL_SIGNAL_START
     \<lparr>maxsize = 0, items = [WORKER_CONTROL_SIGNAL_STOP]\<rparr>"
proof -
  have ping: "str_of ''PING'' \<noteq> WORKER_CONTROL_SIGNAL_STOP"
    by (simp add: WORKER_CONTROL_SIGNAL_STOP_def str_of_def)
  from ping START_not_STOP
    wait_for_stop_fifo [of "[str_of ''PING'', WORKER_CONTROL_SIGNAL_START,
                             WORKER_CONTROL_SIGNAL_STOP, str_of ''LATE'']" "[]"]
    wait_for_stop_fifo [of "[WORKER_CONTROL_SIGNAL_STOP]" "str_of ''PING''"]
  show ?thesis by simp
qed

text \<open>
  C3. A \<^verbatim>\<open>STOP\<close> put on the control channel by \<^verbatim>\<open>Actor.stop\<close>, or by the control
  subscription's handler from a bus message with payload \<^verbatim>\<open>STOP\<close>, makes the run loop
  return with the connection closed, \<^verbatim>\<open>close\<close> having been called exactly once: both
  when the value is queued before the loop starts reading and when it reaches a loop that
  waits. With two \<^verbatim>\<open>STOP\<close>s it is the same: the second stays on the channel, unread,
  and \<^verbatim>\<open>close\<close> is called once. A \<^verbatim>\<open>close\<close> on the closed driver changes nothing but the count of calls,
  and is no error.
\<close>

theorem stop_releases_once:
  assumes up: "reachable br" and valid: "valid_conf get_module (conf a)"
    and unbounded: "maxsize (queue a) \<le> 0"
    and payload: "data m = [0x53, 0x54, 0x4F, 0x50]"
  shows "released_once a (run_in_loop get_module br (snd (stop a))) \<and>
         released_once a (run_in_loop get_module br (snd (handle_signal m a))) \<and>
         released_once a (run_in_loop get_module br (snd (stop (snd (stop a))))) \<and>
         (WORKER_CONTROL_SIGNAL_STOP \<notin> set (items (queue a)) \<longrightarrow>
            fst (run_in_loop get_module br a) = Suspended \<and>
            released_once a (resume_run_in_loop (snd (stop (snd (run_in_loop get_module br a))))) \<and>
            released_once a
              (resume_run_in_loop (snd (handle_signal m (snd (run_in_loop get_module br a))))) \<and>
            released_once a
              (resume_run_in_loop (snd (stop (snd (stop (snd (run_in_loop get_module br a))))))) \<and>
            items (queue (snd
              (resume_run_in_loop (snd (stop (snd (stop (snd (run_in_loop get_module br a)))))))))
              = [WORKER_CONTROL_SIGNAL_STOP]) \<and>
         (driver_close (driver_close d))\<lparr>close_calls := n\<rparr> = (driver_close d)\<lparr>close_calls := n\<rparr>"
proof -
  have dec: "decode (data m) = Inr WORKER_CONTROL_SIGNAL_STOP"
    using payload decode_STOP by simp
  have one: "released_once a (run_in_loop get_module br (snd (stop a)))"
    using up valid unbounded by (intro run_in_loop_released) (simp_all add: stop_unbounded)
  from handle_signal_unbounded [OF unbounded dec]
  have bus: "released_once a (run_in_loop get_module br (snd (handle_signal m a)))"
    using up valid by (intro run_in_loop_released) simp_all
  have two: "released_once a (run_in_loop get_module br (snd (stop (snd (stop a)))))"
    using up valid unbounded by (intro run_in_loop_released) (simp_all add: stop_unbounded)
  have running: "fst (run_in_loop get_module br a) = Suspended \<and>
            released_once a (resume_run_in_loop (snd (stop (snd (run_in_loop get_module br a))))) \<and>
            released_once a
              (resume_run_in_loop (snd (handle_signal m (snd (run_in_loop get_module br a))))) \<and>
            released_once a
              (resume_run_in_loop (snd (stop (snd (stop (snd (run_in_loop get_module br a))))))) \<and>
            items (queue (snd
              (resume_run_in_loop (snd (stop (snd (stop (snd (run_in_loop get_module br a)))))))))
              = [WORKER_CONTROL_SIGNAL_STOP]"
    if "WORKER_CONTROL_SIGNAL_STOP \<notin> set (items (queue a))"
  proof -
    define r where "r = snd (run_in_loop get_module br a)"
    from run_in_loop_waits [OF up valid that]
    have susp: "fst (run_in_loop get_module br a) = Suspended"
      and q: "queue r = (queue a)\<lparr>items := []\<rparr>"
      and cc: "close_calls (driver r) = close_calls (driver a)"
      by (simp_all add: r_def)
    from q unbounded have ub: "maxsize (queue r) \<le> 0" by simp
    have r1: "released_once a (resume_run_in_loop (snd (stop r)))"
      using cc by (intro resume_released) (simp_all add: stop_unbounded [OF ub])
    from handle_signal_unbounded [OF ub dec]
    have r2: "released_once a (resume_run_in_loop (snd (handle_signal m r)))"
      using cc by (intro resume_released) simp_all
    have r3: "released_once a (resume_run_in_loop (snd (stop (snd (stop r)))))"
      using cc ub by (intro resume_released) (simp_all add: stop_unbounded)
    have r4: "items (queue (snd (resume_run_in_loop (snd (stop (snd (stop r))))))) =
        [WORKER_CONTROL_SIGNAL_STOP]"
      using ub q
      by (simp add: stop_unbounded resume_run_in_loop_def nats_driver_exit_def
          wait_for_stop_items [OF START_not_STOP])
    from susp r1 r2 r3 r4 show ?thesis by (simp add: r_def)
  qed
  have "(driver_close (driver_close d))\<lparr>close_calls := n\<rparr> = (driver_close d)\<lparr>close_calls := n\<rparr>"
    by (simp add: driver_close_def)
  with one bus two running show ?thesis by blast
qed

theorem stop_releases_once_witness:
  "released_once sample_actor (run_in_loop sample_get_module sample_broker (snd (stop sample_actor))) \<and>
   released_once sample_actor
     (run_in_loop sample_get_module sample_broker
        (snd (handle_signal \<lparr>subject = ''worker'', reply = [], data = [0x53, 0x54, 0x4F, 0x50]\<rparr>
           sample_actor))) \<and>
   released_once sample_actor
     (run_in_loop sample_get_module sample_broker (snd (stop (snd (stop sample_actor))))) \<and>
   fst (run_in_loop sample_get_module sample_broker sample_actor) = Suspended \<and>
   released_once sample_actor (resume_run_in_loop (snd (stop running_actor))) \<and>
   released_once sample_actor
     (resume_run_in_loop
        (snd (handle_signal \<lparr>subject = ''worker'', reply = [], data = [0x53, 0x54, 0x4F, 0x50]\<rparr>
           running_actor))) \<and>
   released_once sample_actor (resume_run_in_loop (snd (stop (snd (stop running_actor))))) \<and>
   items (queue (snd (resume_run_in_loop (snd (stop (snd (stop running_actor))))))) =
     [WORKER_CONTROL_SIGNAL_STOP]"
proof -
  have up: "reachable sample_broker" by (rule sample_broker_up)
  have valid: "valid_conf sample_get_module (conf sample_actor)"
    by (simp add: sample_actor_conf sample_valid)
  have unbounded: "maxsize (queue sample_actor) \<le> 0"
    by (simp add: sample_actor_queue)
  have payload: "data \<lparr>subject = ''worker'', reply = [], data = [0x53, 0x54, 0x4F, 0x50]\<rparr> =
      [0x53, 0x54, 0x4F, 0x50]" by simp
  have empty: "WORKER_CONTROL_SIGNAL_STOP \<notin> set (items (queue sample_actor))"
    by (simp add: sample_actor_queue)
  from empty stop_releases_once [OF up valid unbounded payload]
  show ?thesis by (simp add: running_actor_def)
qed

text \<open>
  C4. The code does not do what the claim says. \<^verbatim>\<open>__init__\<close> installs the bound method
  \<^verbatim>\<open>self.stop\<close> as the handler of \<^verbatim>\<open>SIGTERM\<close>; the runtime calls a handler with the
  signal number and the stack frame, and \<^verbatim>\<open>stop\<close> takes no argument: the call raises
  \<^verbatim>\<open>TypeError\<close> and nothing is put on the control channel. Called with no argument, as
  \<^verbatim>\<open>run\<close> does, the method is \<^verbatim>\<open>stop\<close> itself.
\<close>

theorem sigterm_handler_raises:
  "signal_table (snd (init c lp p)) SIGTERM = Some BoundStop \<and>
   deliver_signal (snd (init c lp p)) SIGTERM a = Some (Inl TypeError, a) \<and>
   call_stop [] a = stop a"
  by (simp add: init_def deliver_signal_def call_stop_def)

text \<open>
  C5, as stated, fails on a payload that is not UTF-8: the handler raises
  \<^verbatim>\<open>UnicodeDecodeError\<close> and puts nothing on the control channel.
\<close>

theorem handle_signal_invalid_utf8:
  "handle_signal \<lparr>subject = ''worker'', reply = [], data = [0xFF]\<rparr> sample_actor =
     (Inl UnicodeDecodeError, sample_actor)"
  by (simp add: handle_signal_def)

text \<open>
  C5, amended. For every message whose payload is well-formed UTF-8, the handler of the
  control subscription puts the decoded text, as it is and unchecked, behind the values
  already on the control channel, and changes nothing else of the actor; a payload that is
  not well-formed UTF-8 raises the decoding error and leaves the actor as it was.
\<close>

theorem handle_signal_enqueues:
  "maxsize (queue a) \<le> 0 \<Longrightarrow>
   (case decode (data m) of
      Inr worker_message \<Rightarrow>
        snd (handle_signal m a) =
          a\<lparr>queue := (queue a)\<lparr>items := items (queue a) @ [worker_message]\<rparr>\<rparr>
    | Inl e \<Rightarrow> handle_signal m a = (Inl e, a))"
  by (simp add: handle_signal_def put_nowait_unbounded split: sum.splits)

theorem handle_signal_enqueues_witness:
  "maxsize (queue sample_actor) \<le> 0 \<and>
   items (queue (snd (handle_signal
      \<lparr>subject = ''worker'', reply = [], data = [0x50, 0x49, 0x4E, 0x47, 0xE2, 0x82, 0xAC]\<rparr>
      sample_actor))) = [[80, 73, 78, 71, 8364]]"
proof -
  have unbounded: "maxsize (queue sample_actor) \<le> 0"
    by (simp add: sample_actor_queue)
  have dec: "decode [0x50, 0x49, 0x4E, 0x47, 0xE2, 0x82, 0xAC] = Inr [80, 73, 78, 71, 8364]"
    by (simp add: emit_def is_cont_def second_ok3_def cont_bits_def)
  from unbounded dec
    handle_signal_enqueues [OF unbounded,
      of "\<lparr>subject = ''worker'', reply = [], data = [0x50, 0x49, 0x4E, 0x47, 0xE2, 0x82, 0xAC]\<rparr>"]
  show ?thesis by (simp add: sample_actor_queue)
qed

text \<open>
  C6, as stated, fails: \<^verbatim>\<open>Actor.request\<close> has no timeout parameter (its third parameter
  is the event loop) and passes none to the connection. A responder that replies after 7
  time units, within a caller's timeout of 10, is not waited for when the connection's
  default is 5.
\<close>

theorem request_ignores_timeout:
  "responder sample_broker ''slow.get'' [0x7B, 0x7D] = Some (7, [0x7B, 0x7D]) \<and> (7::nat) < 10 \<and>
   fst (request sample_broker sample_actor ''slow.get'' [0x7B, 0x7D] None) = Inl TimeoutError \<and>
   fst (request sample_broker sample_actor ''slow.get'' [0x7B, 0x7D] (Some main_loop)) =
     Inl TimeoutError"
  by (simp add: request_def nats_driver_enter_def get_connection_def sample_actor_driver
      NatsDriver_def sample_broker_def nats_request_def)

text \<open>
  C6, amended. \<^verbatim>\<open>Actor.request(name, payload, loop)\<close>, when a connection can be had,
  returns the exact reply bytes of a responder that replies before the connection's
  default request timeout has elapsed, and fails with \<^verbatim>\<open>TimeoutError\<close> when none does;
  the caller names no timeout.
\<close>

theorem request_default_timeout:
  assumes "reachable br \<or> nats (driver a) \<noteq> None"
  shows "fst (request br a name payload lp) =
     (case responder br name payload of
        None \<Rightarrow> Inl TimeoutError
      | Some (delay, res) \<Rightarrow> if delay < default_timeout br then Inr res else Inl TimeoutError)"
proof -
  from request_result [OF assms, of name payload lp] obtain c where
    "request br a name payload lp =
       (case responder br name payload of
          None \<Rightarrow> (Inl TimeoutError,
                    a\<lparr>driver := (driver a)\<lparr>nats := Some c,
                          requests := requests (driver a) @ [(name, payload)]\<rparr>\<rparr>)
        | Some (delay, res) \<Rightarrow>
            if delay < default_timeout br
            then (Inr res,
                  a\<lparr>driver := (driver a)\<lparr>nats := None,
                        close_calls := Suc (close_calls (driver a)),
                        requests := requests (driver a) @ [(name, payload)]\<rparr>\<rparr>)
            else (Inl TimeoutError,
                  a\<lparr>driver := (driver a)\<lparr>nats := Some c,
                        requests := requests (driver a) @ [(name, payload)]\<rparr>\<rparr>))"
    by blast
  then show ?thesis by (simp split: option.splits prod.splits)
qed

theorem request_default_timeout_witness:
  "fst (request sample_broker sample_actor ''foo.get'' [0x7B, 0x7D] None) = Inr [0x7B, 0x7D] \<and>
   fst (request sample_broker sample_actor ''nobody'' [0x7B, 0x7D] None) = Inl TimeoutError"
proof -
  have up: "reachable sample_broker \<or> nats (driver sample_actor) \<noteq> None"
    by (simp add: sample_broker_up)
  from request_default_timeout [OF up, of "''foo.get''" "[0x7B, 0x7D]" None]
       request_default_timeout [OF up, of "''nobody''" "[0x7B, 0x7D]" None]
  show ?thesis by (simp add: sample_broker_def)
qed

text \<open>
  C7, as stated, fails for a request made while the run loop waits: the request reuses the
  live connection, which holds the three subscriptions of the run loop, and closes it on
  return.
\<close>

theorem request_closes_live_connection:
  "fst (run_in_loop sample_get_module sample_broker sample_actor) = Suspended \<and>
   map_option (\<lambda>c. length (subs c)) (nats (driver running_actor)) = Some 3 \<and>
   fst (request sample_broker running_actor ''foo.get'' [0x7B, 0x7D] None) = Inr [0x7B, 0x7D] \<and>
   nats (driver (snd (request sample_broker running_actor ''foo.get'' [0x7B, 0x7D] None))) = None"
proof (intro conjI)
  show "fst (run_in_loop sample_get_module sample_broker sample_actor) = Suspended"
    by (simp add: running_actor_eval)
  show "map_option (\<lambda>c. length (subs c)) (nats (driver running_actor)) = Some 3"
    by (simp add: running_actor_def running_actor_eval)
  have req: "request sample_broker running_actor ''foo.get'' [0x7B, 0x7D] None =
      (Inr [0x7B, 0x7D],
       running_actor\<lparr>driver := (driver running_actor)\<lparr>nats := None,
          close_calls := 1, requests := [(''foo.get'', [0x7B, 0x7D])]\<rparr>\<rparr>)"
    unfolding running_actor_def running_actor_eval
    by (simp add: request_def nats_driver_enter_def get_connection_def nats_request_def
        sample_broker_def nats_driver_exit_def driver_close_def sample_actor_driver NatsDriver_def)
  show "fst (request sample_broker running_actor ''foo.get'' [0x7B, 0x7D] None) = Inr [0x7B, 0x7D]"
    by (simp add: req)
  show "nats (driver (snd (request sample_broker running_actor ''foo.get'' [0x7B, 0x7D] None))) = None"
    by (simp add: req)
qed

text \<open>
  C7, amended. When a connection can be had (one is live, or the broker can be reached),
  \<^verbatim>\<open>Actor.request\<close> performs exactly one bus request and leaves the control channel, the
  configuration and the event loop of the actor unchanged, and makes no \<^verbatim>\<open>subscribe\<close>
  call. When it returns a reply, that is the responder's reply, and the driver's connection
  has been closed by one call of \<^verbatim>\<open>close\<close>: invoked with no live connection (before or
  after the run loop), the driver is left with none, as it was; invoked while a connection
  is live, that connection is released.
\<close>

theorem request_frame:
  assumes "reachable br \<or> nats (driver a) \<noteq> None"
  shows "queue (snd (request br a name payload lp)) = queue a \<and>
         conf (snd (request br a name payload lp)) = conf a \<and>
         loop (snd (request br a name payload lp)) = loop a \<and>
         subscribe_calls (driver (snd (request br a name payload lp))) =
           subscribe_calls (driver a) \<and>
         requests (driver (snd (request br a name payload lp))) =
           requests (driver a) @ [(name, payload)] \<and>
         (fst (request br a name payload lp) = Inr res \<longrightarrow>
            (\<exists>delay. responder br name payload = Some (delay, res)) \<and>
            nats (driver (snd (request br a name payload lp))) = None \<and>
            close_calls (driver (snd (request br a name payload lp))) =
              Suc (close_calls (driver a))) \<and>
         (fst (request br a name payload lp) = Inr res \<and> nats (driver a) = None \<longrightarrow>
            nats (driver (snd (request br a name payload lp))) = nats (driver a))"
proof -
  from request_result [OF assms, of name payload lp] obtain c where
    "request br a name payload lp =
       (case responder br name payload of
          None \<Rightarrow> (Inl TimeoutError,
                    a\<lparr>driver := (driver a)\<lparr>nats := Some c,
                          requests := requests (driver a) @ [(name, payload)]\<rparr>\<rparr>)
        | Some (delay, res) \<Rightarrow>
            if delay < default_timeout br
            then (Inr res,
                  a\<lparr>driver := (driver a)\<lparr>nats := None,
                        close_calls := Suc (close_calls (driver a)),
                        requests := requests (driver a) @ [(name, payload)]\<rparr>\<rparr>)
            else (Inl TimeoutError,
                  a\<lparr>driver := (driver a)\<lparr>nats := Some c,
                        requests := requests (driver a) @ [(name, payload)]\<rparr>\<rparr>))"
    by blast
  then show ?thesis
    by (auto split: option.splits prod.splits if_splits)
qed

theorem request_frame_witness:
  "queue (snd (request sample_broker sample_actor ''foo.get'' [0x7B, 0x7D] None)) =
     queue sample_actor \<and>
   subscribe_calls (driver (snd (request sample_broker sample_actor ''foo.get'' [0x7B, 0x7D] None))) =
     [] \<and>
   requests (driver (snd (request sample_broker sample_actor ''foo.get'' [0x7B, 0x7D] None))) =
     [(''foo.get'', [0x7B, 0x7D])] \<and>
   fst (request sample_broker sample_actor ''foo.get'' [0x7B, 0x7D] None) = Inr [0x7B, 0x7D] \<and>
   nats (driver (snd (request sample_broker sample_actor ''foo.get'' [0x7B, 0x7D] None))) = None \<and>
   close_calls (driver (snd (request sample_broker sample_actor ''foo.get'' [0x7B, 0x7D] None))) = 1"
proof -
  have up: "reachable sample_broker \<or> nats (driver sample_actor) \<noteq> None"
    by (simp add: sample_broker_up)
  have ok: "fst (request sample_broker sample_actor ''foo.get'' [0x7B, 0x7D] None) = Inr [0x7B, 0x7D]"
    by (simp add: request_def nats_driver_enter_def get_connection_def sample_actor_driver
      NatsDriver_def sample_broker_def nats_request_def)
  from ok request_frame [OF up, of "''foo.get''" "[0x7B, 0x7D]" None "[0x7B, 0x7D]"]
  show ?thesis by (simp add: sample_actor_driver NatsDriver_def)
qed


text \<open>
  C8. For every name and payload, \<^verbatim>\<open>send_task\<close> returns what \<^verbatim>\<open>request\<close>, called with
  the fresh event loop, returns (its value or the exception it raises), and leaves the
  actor as that call leaves it. The two clock readings are used for the logged elapsed
  time only: the response is the same whatever they are.
\<close>

theorem send_task_returns_request:
  "fst (send_task br a fresh t0 t1 name payload) = fst (request br a name payload (Some fresh)) \<and>
   fst (snd (send_task br a fresh t0 t1 name payload)) =
     snd (request br a name payload (Some fresh)) \<and>
   fst (send_task br a fresh t0 t1 name payload) = fst (send_task br a fresh t0' t1' name payload)"
  by (simp add: send_task_def split: prod.splits sum.splits)




text \<open>
  C10. \<^verbatim>\<open>__init__\<close> makes the control channel with \<^verbatim>\<open>asyncio.Queue()\<close>, whose
  \<^verbatim>\<open>maxsize\<close> is 0, and on such a queue \<^verbatim>\<open>stop\<close> returns without an exception, with
  \<^verbatim>\<open>STOP\<close> added behind the values already queued, however many they are. The model of
  \<^verbatim>\<open>stop\<close> is a total function with no suspension point: it does not block.
\<close>

theorem stop_never_full:
  "queue (fst (init c lp p)) = Queue 0 \<and>
   stop (a\<lparr>queue := (Queue 0)\<lparr>items := xs\<rparr>\<rparr>) =
     (Inr (), a\<lparr>queue := (Queue 0)\<lparr>items := xs @ [WORKER_CONTROL_SIGNAL_STOP]\<rparr>\<rparr>)"
  by (simp add: init_def stop_def put_nowait_def full_def Queue_def)

end
